theory Spec2Isabelle
  imports Main "HOL-Library.AList"
begin

section \<open>Data model\<close>

text \<open>
  The Python module \<^verbatim>\<open>poetry_functions.py\<close> works on strings, tuples of strings and
  dictionaries. Strings are modelled as \<^typ>\<open>string\<close> over the ASCII range (a character
  of code 128 or more is carried along unchanged and is neither a letter nor white space).
  A pronunciation dictionary is an association list in insertion order; a Python dictionary
  has pairwise distinct keys, so the lists that stand for one satisfy
  \<open>distinct (map fst d)\<close>. Python integers are \<^typ>\<open>int\<close>. The only exception the
  module can raise on its own is \<^verbatim>\<open>IndexError\<close>.
\<close>

datatype error = IndexError

type_synonym POEM_LINE = string
type_synonym POEM = "string list"
type_synonym PHONEMES = "string list"
type_synonym PRONUNCIATION_DICT = "(string \<times> PHONEMES) list"
type_synonym POETRY_FORM_DESCRIPTION = "int list \<times> string list"

subsection \<open>Python primitives used by the module\<close>

text \<open>\<^verbatim>\<open>xs[i]\<close>: a negative index counts from the end, an index out of range raises.\<close>

definition py_index :: "'a list \<Rightarrow> int \<Rightarrow> error + 'a" where
  "py_index xs i =
     (if 0 \<le> i \<and> i < int (length xs) then Inr (xs ! nat i)
      else if i < 0 \<and> - int (length xs) \<le> i then Inr (xs ! nat (int (length xs) + i))
      else Inl IndexError)"

text \<open>\<^verbatim>\<open>[xs[i] for i in js]\<close>\<close>

fun py_index_all :: "'a list \<Rightarrow> int list \<Rightarrow> error + 'a list" where
  "py_index_all xs [] = Inr []"
| "py_index_all xs (i # js) =
     (case py_index xs i of
        Inl e \<Rightarrow> Inl e
      | Inr x \<Rightarrow> (case py_index_all xs js of Inl e \<Rightarrow> Inl e | Inr rest \<Rightarrow> Inr (x # rest)))"

text \<open>\<^verbatim>\<open>str.upper\<close> on ASCII: the letters a to z (codes 97 to 122) move down by 32.\<close>

definition upper_char :: "char \<Rightarrow> char" where
  "upper_char c =
     (if 97 \<le> (of_char c :: nat) \<and> (of_char c :: nat) \<le> 122
      then char_of ((of_char c :: nat) - 32) else c)"

definition upper :: "string \<Rightarrow> string" where
  "upper s = map upper_char s"

text \<open>\<^verbatim>\<open>s.strip(chars)\<close>: drop the characters of \<open>chars\<close> from both ends.\<close>

definition strip :: "string \<Rightarrow> string \<Rightarrow> string" where
  "strip chars s =
     rev (dropWhile (\<lambda>c. c \<in> set chars) (rev (dropWhile (\<lambda>c. c \<in> set chars) s)))"

text \<open>White space as \<^verbatim>\<open>str.split()\<close> sees it on ASCII: codes 9 to 13, 28 to 31 and 32.\<close>

definition is_space :: "char \<Rightarrow> bool" where
  "is_space c =
     ((9 \<le> (of_char c :: nat) \<and> (of_char c :: nat) \<le> 13) \<or>
      (28 \<le> (of_char c :: nat) \<and> (of_char c :: nat) \<le> 32))"

text \<open>
  \<^verbatim>\<open>s.split()\<close>: the maximal runs of characters that are not white space, in order.
  The second argument is the word being read.
\<close>

fun split_from :: "string \<Rightarrow> string \<Rightarrow> string list" where
  "split_from [] cur = (if cur = [] then [] else [cur])"
| "split_from (c # cs) cur =
     (if is_space c then (if cur = [] then split_from cs [] else cur # split_from cs [])
      else split_from cs (cur @ [c]))"

definition str_split :: "string \<Rightarrow> string list" where
  "str_split s = split_from s []"

section \<open>The functions of \<^verbatim>\<open>poetry_functions.py\<close>\<close>

subsection \<open>\<^verbatim>\<open>transform_string\<close>\<close>

text \<open>
  The characters of the source's \<^verbatim>\<open>punctuation\<close> literal, in its order (the hyphen occurs
  twice there); double quote, apostrophe, backslash, line feed, tab and carriage return are
  written by code.
\<close>

definition punctuation :: string where
  "punctuation =
     [CHR ''!'', CHR 0x22, CHR 0x27, CHR ''`'', CHR ''@'', CHR ''$'', CHR ''%'', CHR ''^'',
      CHR ''&'', CHR ''_'', CHR ''-'', CHR ''+'', CHR ''='', CHR ''{'', CHR ''}'', CHR ''|'',
      CHR 0x5C, CHR ''/'', CHR '','', CHR '';'', CHR '':'', CHR ''.'', CHR ''-'', CHR ''?'',
      CHR '')'', CHR ''('', CHR ''['', CHR '']'', CHR ''<'', CHR ''>'', CHR ''*'', CHR ''#'',
      CHR 0x0A, CHR 0x09, CHR 0x0D]"

definition transform_string :: "string \<Rightarrow> string" where
  "transform_string s = strip punctuation (upper s)"

subsection \<open>\<^verbatim>\<open>is_vowel_phoneme\<close>\<close>

text \<open>\<^verbatim>\<open>phoneme[-1] in '012'\<close>; the index raises on the empty string.\<close>

definition is_vowel_phoneme :: "string \<Rightarrow> error + bool" where
  "is_vowel_phoneme phoneme =
     (case py_index phoneme (- 1) of
        Inl e \<Rightarrow> Inl e
      | Inr c \<Rightarrow> Inr (c \<in> set ''012''))"

subsection \<open>\<^verbatim>\<open>get_syllable_count\<close>\<close>

text \<open>
  The inner loop \<^verbatim>\<open>for j in word_to_phonemes\<close> runs over the keys of the dictionary and
  adds one for each key that is a vowel phoneme.
\<close>

fun count_vowel_keys :: "string list \<Rightarrow> int \<Rightarrow> error + int" where
  "count_vowel_keys [] count = Inr count"
| "count_vowel_keys (j # js) count =
     (case is_vowel_phoneme j of
        Inl e \<Rightarrow> Inl e
      | Inr b \<Rightarrow> count_vowel_keys js (if b then count + 1 else count))"

text \<open>
  The outer loop \<^verbatim>\<open>for i in poem_lines\<close> runs over the characters of the transformed
  line; \<^verbatim>\<open>i in word_to_phonemes\<close> asks whether the one-character string is a key.
\<close>

fun syllable_count_loop :: "string \<Rightarrow> PRONUNCIATION_DICT \<Rightarrow> int \<Rightarrow> error + int" where
  "syllable_count_loop [] word_to_phonemes count = Inr count"
| "syllable_count_loop (i # rest) word_to_phonemes count =
     (if map_of word_to_phonemes [i] \<noteq> None then
        (case count_vowel_keys (map fst word_to_phonemes) count of
           Inl e \<Rightarrow> Inl e
         | Inr count' \<Rightarrow> syllable_count_loop rest word_to_phonemes count')
      else syllable_count_loop rest word_to_phonemes count)"

definition get_syllable_count :: "POEM_LINE \<Rightarrow> PRONUNCIATION_DICT \<Rightarrow> error + int" where
  "get_syllable_count poem_line word_to_phonemes =
     syllable_count_loop (transform_string poem_line) word_to_phonemes 0"

subsection \<open>\<^verbatim>\<open>check_syllable_counts\<close>\<close>

text \<open>
  The loop \<^verbatim>\<open>for i in range(len(poem_lines))\<close>, over the indices still to visit.
  \<^verbatim>\<open>poem_lines[i]\<close> is always in range; \<^verbatim>\<open>syllable_counts[i]\<close> raises when the
  description is shorter than the poem.
\<close>

fun check_syllable_counts_loop ::
  "POEM \<Rightarrow> int list \<Rightarrow> PRONUNCIATION_DICT \<Rightarrow> nat list \<Rightarrow> POEM_LINE list
     \<Rightarrow> error + POEM_LINE list" where
  "check_syllable_counts_loop poem_lines syllable_counts word_to_phonemes [] invalid_lines =
     Inr invalid_lines"
| "check_syllable_counts_loop poem_lines syllable_counts word_to_phonemes (i # rest) invalid_lines =
     (case py_index poem_lines (int i) of
        Inl e \<Rightarrow> Inl e
      | Inr line \<Rightarrow>
          (case py_index syllable_counts (int i) of
             Inl e \<Rightarrow> Inl e
           | Inr req_syllables \<Rightarrow>
               if req_syllables \<noteq> 0 then
                 (case get_syllable_count line word_to_phonemes of
                    Inl e \<Rightarrow> Inl e
                  | Inr actual_syllables \<Rightarrow>
                      check_syllable_counts_loop poem_lines syllable_counts word_to_phonemes rest
                        (if actual_syllables \<noteq> req_syllables then invalid_lines @ [line]
                         else invalid_lines))
               else
                 check_syllable_counts_loop poem_lines syllable_counts word_to_phonemes rest
                   invalid_lines))"

definition check_syllable_counts ::
  "POEM \<Rightarrow> POETRY_FORM_DESCRIPTION \<Rightarrow> PRONUNCIATION_DICT \<Rightarrow> error + POEM_LINE list" where
  "check_syllable_counts poem_lines description word_to_phonemes =
     check_syllable_counts_loop poem_lines (fst description) word_to_phonemes
       [0..<length poem_lines] []"

subsection \<open>\<^verbatim>\<open>get_last_syllable\<close>\<close>

text \<open>
  The loop \<^verbatim>\<open>for i in range(len(word_phonemes) - 1, -1, -1)\<close>: the counter \<open>n\<close> says
  that the indices \<open>n - 1\<close> down to \<open>0\<close> are still to visit.
\<close>

fun get_last_syllable_loop :: "PHONEMES \<Rightarrow> nat \<Rightarrow> error + PHONEMES" where
  "get_last_syllable_loop word_phonemes 0 = Inr []"
| "get_last_syllable_loop word_phonemes (Suc i) =
     (case is_vowel_phoneme (word_phonemes ! i) of
        Inl e \<Rightarrow> Inl e
      | Inr b \<Rightarrow> if b then Inr (drop i word_phonemes)
                else get_last_syllable_loop word_phonemes i)"

definition get_last_syllable :: "PHONEMES \<Rightarrow> error + PHONEMES" where
  "get_last_syllable word_phonemes =
     get_last_syllable_loop word_phonemes (length word_phonemes)"

subsection \<open>\<^verbatim>\<open>words_rhyme\<close>\<close>

definition words_rhyme :: "string \<Rightarrow> string \<Rightarrow> PRONUNCIATION_DICT \<Rightarrow> error + bool" where
  "words_rhyme word1 word2 word_to_phonemes =
     (case (map_of word_to_phonemes (transform_string word1),
            map_of word_to_phonemes (transform_string word2)) of
        (Some phoneme1, Some phoneme2) \<Rightarrow>
          (case get_last_syllable phoneme1 of
             Inl e \<Rightarrow> Inl e
           | Inr last_syll1 \<Rightarrow>
               (case get_last_syllable phoneme2 of
                  Inl e \<Rightarrow> Inl e
                | Inr last_syll2 \<Rightarrow> Inr (last_syll1 = last_syll2)))
      | _ \<Rightarrow> Inr False)"

subsection \<open>\<^verbatim>\<open>all_lines_rhyme\<close>\<close>

text \<open>
  The first loop fills the list \<^verbatim>\<open>last\<close>; \<open>None\<close> stands for its early
  \<^verbatim>\<open>return False\<close>. Both \<^verbatim>\<open>poem_lines[i]\<close> and \<^verbatim>\<open>split()[-1]\<close> may raise.
\<close>

fun last_syllables ::
  "POEM \<Rightarrow> int list \<Rightarrow> PRONUNCIATION_DICT \<Rightarrow> PHONEMES list
     \<Rightarrow> error + PHONEMES list option" where
  "last_syllables poem_lines [] word_to_phonemes lasts = Inr (Some lasts)"
| "last_syllables poem_lines (i # rest) word_to_phonemes lasts =
     (case py_index poem_lines i of
        Inl e \<Rightarrow> Inl e
      | Inr line \<Rightarrow>
          (case py_index (str_split line) (- 1) of
             Inl e \<Rightarrow> Inl e
           | Inr w \<Rightarrow>
               (case map_of word_to_phonemes (transform_string w) of
                  None \<Rightarrow> Inr None
                | Some phonemes \<Rightarrow>
                    (case get_last_syllable phonemes of
                       Inl e \<Rightarrow> Inl e
                     | Inr syll \<Rightarrow>
                         last_syllables poem_lines rest word_to_phonemes (lasts @ [syll])))))"

text \<open>
  The second loop compares every entry with \<^verbatim>\<open>last[0]\<close>, which is read only when the
  list has an entry.
\<close>

definition all_lines_rhyme ::
  "POEM \<Rightarrow> int list \<Rightarrow> PRONUNCIATION_DICT \<Rightarrow> error + bool" where
  "all_lines_rhyme poem_lines lines_to_check word_to_phonemes =
     (case last_syllables poem_lines lines_to_check word_to_phonemes [] of
        Inl e \<Rightarrow> Inl e
      | Inr None \<Rightarrow> Inr False
      | Inr (Some lasts) \<Rightarrow> Inr (list_all (\<lambda>j. j = lasts ! 0) lasts))"

subsection \<open>\<^verbatim>\<open>get_rhyme_label_to_lines\<close>\<close>

text \<open>
  The dictionary \<^verbatim>\<open>labels\<close> is an association list in insertion order, as
  \<^verbatim>\<open>labels.items()\<close> lists it: \<^const>\<open>AList.update\<close> keeps the place of a key that is
  there and puts a new key last. One round of the loop, at index \<open>i\<close>:
\<close>

definition label_step ::
  "string list \<Rightarrow> nat \<Rightarrow> (string \<times> int list) list \<Rightarrow> (string \<times> int list) list" where
  "label_step rhyme_scheme i labels =
     (let label = rhyme_scheme ! i;
          labels1 = (if map_of labels label = None then AList.update label [] labels
                     else labels)
      in case map_of labels1 label of
           None \<Rightarrow> labels1
         | Some ixs \<Rightarrow> AList.update label (ixs @ [int i]) labels1)"

definition get_rhyme_label_to_lines :: "string list \<Rightarrow> (string \<times> int list) list" where
  "get_rhyme_label_to_lines rhyme_scheme =
     fold (label_step rhyme_scheme) [0..<length rhyme_scheme] []"

subsection \<open>\<^verbatim>\<open>check_rhyme_scheme\<close>\<close>

text \<open>
  The loop over \<^verbatim>\<open>labels.items()\<close>. The source tests the group and appends its lines
  twice in a row.
\<close>

fun check_rhyme_scheme_loop ::
  "POEM \<Rightarrow> PRONUNCIATION_DICT \<Rightarrow> (string \<times> int list) list \<Rightarrow> POEM_LINE list list
     \<Rightarrow> error + POEM_LINE list list" where
  "check_rhyme_scheme_loop poem_lines word_to_phonemes [] bad_lines = Inr bad_lines"
| "check_rhyme_scheme_loop poem_lines word_to_phonemes ((label, j) # rest) bad_lines =
     (if label \<noteq> ''*'' then
        (case py_index_all poem_lines j of
           Inl e \<Rightarrow> Inl e
         | Inr line \<Rightarrow>
             (case all_lines_rhyme poem_lines j word_to_phonemes of
                Inl e \<Rightarrow> Inl e
              | Inr r1 \<Rightarrow>
                  (case all_lines_rhyme poem_lines j word_to_phonemes of
                     Inl e \<Rightarrow> Inl e
                   | Inr r2 \<Rightarrow>
                       check_rhyme_scheme_loop poem_lines word_to_phonemes rest
                         ((if \<not> r1 then bad_lines @ [line] else bad_lines) @
                          (if \<not> r2 then [line] else [])))))
      else check_rhyme_scheme_loop poem_lines word_to_phonemes rest bad_lines)"

definition check_rhyme_scheme ::
  "POEM \<Rightarrow> POETRY_FORM_DESCRIPTION \<Rightarrow> PRONUNCIATION_DICT \<Rightarrow> error + POEM_LINE list list" where
  "check_rhyme_scheme poem_lines description word_to_phonemes =
     check_rhyme_scheme_loop poem_lines word_to_phonemes
       (get_rhyme_label_to_lines (snd description)) []"

subsection \<open>The syllable counter as the specification words it\<close>

text \<open>
  The specification describes the counter differently from the source: split the line at
  white space, normalise each word, and add the number of vowel phonemes of every word
  that the dictionary knows. This second definition follows those words, for comparison
  with \<^const>\<open>get_syllable_count\<close>.
\<close>

definition spec_is_vowel :: "string \<Rightarrow> bool" where
  "spec_is_vowel phoneme = (phoneme \<noteq> [] \<and> last phoneme \<in> set ''012'')"

definition spec_count_line_syllables :: "POEM_LINE \<Rightarrow> PRONUNCIATION_DICT \<Rightarrow> int" where
  "spec_count_line_syllables line dictionary =
     (\<Sum>w \<leftarrow> str_split line.
        case map_of dictionary (transform_string w) of
          None \<Rightarrow> 0
        | Some phonemes \<Rightarrow> int (length (filter spec_is_vowel phonemes)))"

section \<open>Auxiliary facts\<close>

subsection \<open>Characters, indexing and stripping\<close>


lemma is_vowel_phoneme_Nil: "is_vowel_phoneme [] = Inl IndexError"
  by (simp add: is_vowel_phoneme_def py_index_def)







lemma error_eq: "(e :: error) = e'"
  by (cases e, cases e') simp

lemma get_last_syllable_loop_no_vowel:
  assumes "\<forall>p\<in>set ps. is_vowel_phoneme p = Inr False"
  shows "n \<le> length ps \<Longrightarrow> get_last_syllable_loop ps n = Inr []"
proof (induction n)
  case 0
  show ?case by simp
next
  case (Suc n)
  then have "ps ! n \<in> set ps" by simp
  with assms have "is_vowel_phoneme (ps ! n) = Inr False" by blast
  moreover have "get_last_syllable_loop ps n = Inr []" using Suc by simp
  ultimately show ?case by simp
qed

subsection \<open>Splitting, last syllables and \<^verbatim>\<open>all_lines_rhyme\<close>\<close>









subsection \<open>The grouping of line indices by label\<close>

lemma map_of_label_step:
  "map_of (label_step rs i labels) =
   (map_of labels)(rs ! i \<mapsto> (case map_of labels (rs ! i) of None \<Rightarrow> [] | Some v \<Rightarrow> v) @ [int i])"
  by (cases "map_of labels (rs ! i)") (simp_all add: label_step_def update_conv')

lemma distinct_label_step:
  "distinct (map fst labels) \<Longrightarrow> distinct (map fst (label_step rs i labels))"
  by (cases "map_of labels (rs ! i)") (simp_all add: label_step_def update_conv' distinct_update)

lemma fold_label_step_Suc:
  "fold (label_step rs) [0..<Suc k] [] = label_step rs k (fold (label_step rs) [0..<k] [])"
  by simp

lemma distinct_fold_label_step: "distinct (map fst (fold (label_step rs) [0..<k] []))"
proof (induction k)
  case 0
  show ?case by simp
next
  case (Suc k)
  then show ?case by (simp only: fold_label_step_Suc distinct_label_step)
qed

lemma map_of_fold_label_step:
  "map_of (fold (label_step rs) [0..<k] []) l =
   (if filter (\<lambda>i. rs ! i = l) [0..<k] = [] then None
    else Some (map int (filter (\<lambda>i. rs ! i = l) [0..<k])))"
proof (induction k)
  case 0
  show ?case by simp
next
  case (Suc k)
  let ?g = "fold (label_step rs) [0..<k] []"
  let ?idx = "filter (\<lambda>i. rs ! i = l) [0..<k]"
  have step: "map_of (fold (label_step rs) [0..<Suc k] []) l =
     ((map_of ?g)(rs ! k \<mapsto> (case map_of ?g (rs ! k) of None \<Rightarrow> [] | Some v \<Rightarrow> v) @ [int k])) l"
    by (simp only: fold_label_step_Suc map_of_label_step)
  show ?case
  proof (cases "rs ! k = l")
    case True
    have "(case map_of ?g l of None \<Rightarrow> [] | Some v \<Rightarrow> v) = map int ?idx"
      by (simp add: Suc.IH)
    with True step show ?thesis by simp
  next
    case False
    with step Suc.IH show ?thesis by simp
  qed
qed

lemma map_of_get_rhyme_label_to_lines:
  "map_of (get_rhyme_label_to_lines rs) l =
   (if l \<in> set rs then Some (map int (filter (\<lambda>i. rs ! i = l) [0..<length rs])) else None)"
proof -
  have "(filter (\<lambda>i. rs ! i = l) [0..<length rs] = []) \<longleftrightarrow> l \<notin> set rs"
    by (auto simp: filter_empty_conv in_set_conv_nth)
  then show ?thesis
    by (simp add: get_rhyme_label_to_lines_def map_of_fold_label_step)
qed

lemma distinct_get_rhyme_label_to_lines: "distinct (map fst (get_rhyme_label_to_lines rs))"
  by (simp only: get_rhyme_label_to_lines_def distinct_fold_label_step)

lemma get_rhyme_label_to_lines_entry:
  "(l, ixs) \<in> set (get_rhyme_label_to_lines rs) \<longleftrightarrow>
   l \<in> set rs \<and> ixs = map int (filter (\<lambda>i. rs ! i = l) [0..<length rs])"
proof -
  have "(l, ixs) \<in> set (get_rhyme_label_to_lines rs) \<longleftrightarrow>
        map_of (get_rhyme_label_to_lines rs) l = Some ixs"
    using distinct_get_rhyme_label_to_lines by (metis map_of_SomeD map_of_is_SomeI)
  then show ?thesis by (auto simp: map_of_get_rhyme_label_to_lines)
qed

subsection \<open>What \<^verbatim>\<open>check_rhyme_scheme\<close> reports\<close>







subsection \<open>The loop of \<^verbatim>\<open>check_syllable_counts\<close>\<close>

lemma py_index_nat: "i < length xs \<Longrightarrow> py_index xs (int i) = Inr (xs ! i)"
  by (simp add: py_index_def)

lemma check_syllable_counts_loop_result:
  "\<forall>i\<in>set todo. i < length poem \<and> i < length counts \<Longrightarrow>
   check_syllable_counts_loop poem counts d todo invalid = Inr out \<Longrightarrow>
   out = invalid @ map ((!) poem)
           (filter (\<lambda>i. counts ! i \<noteq> 0 \<and> get_syllable_count (poem ! i) d \<noteq> Inr (counts ! i))
              todo)"
proof (induction todo arbitrary: invalid)
  case Nil
  then show ?case by simp
next
  case (Cons i todo)
  from Cons.prems(1) have i: "i < length poem" "i < length counts" by simp_all
  from Cons.prems(1) have rest: "\<forall>i\<in>set todo. i < length poem \<and> i < length counts" by simp
  have p: "py_index poem (int i) = Inr (poem ! i)" using i(1) by (rule py_index_nat)
  have c: "py_index counts (int i) = Inr (counts ! i)" using i(2) by (rule py_index_nat)
  show ?case
  proof (cases "counts ! i = 0")
    case True
    with Cons.prems(2) p c
    have "check_syllable_counts_loop poem counts d todo invalid = Inr out" by simp
    from Cons.IH [OF rest this] True show ?thesis by simp
  next
    case False
    show ?thesis
    proof (cases "get_syllable_count (poem ! i) d")
      case (Inl e)
      with Cons.prems(2) p c False show ?thesis by simp
    next
      case (Inr actual)
      with Cons.prems(2) p c False
      have "check_syllable_counts_loop poem counts d todo
              (if actual \<noteq> counts ! i then invalid @ [poem ! i] else invalid) = Inr out"
        by simp
      from Cons.IH [OF rest this] Inr False show ?thesis by simp
    qed
  qed
qed

lemma check_syllable_counts_loop_all_zero:
  "\<forall>i\<in>set todo. i < length poem \<and> i < length counts \<and> counts ! i = 0 \<Longrightarrow>
   check_syllable_counts_loop poem counts d todo invalid = Inr invalid"
  by (induction todo) (simp_all add: py_index_nat)

section \<open>The claims\<close>

text \<open>
  Claim C1. The docstring of \<^verbatim>\<open>get_syllable_count\<close> and the specification give 5
  syllables for the line \<^verbatim>\<open>Then! the #poem ends.\<close> under the four-word dictionary.
  The source loops over the characters of the transformed line and over the keys of the
  dictionary instead of over words and their phonemes: on this input it returns 0, while
  the counter worded as in the specification returns 5.
\<close>

theorem get_syllable_count_docstring:
  "get_syllable_count ''Then! the #poem ends.''
     [(''THEN'', [''DH'', ''EH1'', ''N'']), (''ENDS'', [''EH1'', ''N'', ''D'', ''Z'']),
      (''THE'', [''DH'', ''AH0'']), (''POEM'', [''P'', ''OW1'', ''AH0'', ''M''])] = Inr 0
   \<and> spec_count_line_syllables ''Then! the #poem ends.''
     [(''THEN'', [''DH'', ''EH1'', ''N'']), (''ENDS'', [''EH1'', ''N'', ''D'', ''Z'']),
      (''THE'', [''DH'', ''AH0'']), (''POEM'', [''P'', ''OW1'', ''AH0'', ''M''])] = 5"
  by code_simp

text \<open>
  Claim C5. Two words that the dictionary knows (after normalisation) and whose phoneme
  sequences hold no vowel phoneme, every phoneme being a proper non-vowel token: the last
  syllable of each is the empty sequence and \<^verbatim>\<open>words_rhyme\<close> returns true.
\<close>

theorem no_vowel_words_rhyme:
  assumes "map_of d (transform_string w1) = Some ps1"
    and "map_of d (transform_string w2) = Some ps2"
    and "\<forall>p\<in>set ps1. is_vowel_phoneme p = Inr False"
    and "\<forall>p\<in>set ps2. is_vowel_phoneme p = Inr False"
  shows "get_last_syllable ps1 = Inr [] \<and> get_last_syllable ps2 = Inr [] \<and>
         words_rhyme w1 w2 d = Inr True"
proof -
  have 1: "get_last_syllable ps1 = Inr []"
    unfolding get_last_syllable_def
    by (rule get_last_syllable_loop_no_vowel [OF assms(3)]) simp
  have 2: "get_last_syllable ps2 = Inr []"
    unfolding get_last_syllable_def
    by (rule get_last_syllable_loop_no_vowel [OF assms(4)]) simp
  show ?thesis using assms(1,2) 1 2 by (simp add: words_rhyme_def)
qed

theorem no_vowel_words_rhyme_witness:
  "get_last_syllable [''B'', ''S''] = Inr [] \<and> get_last_syllable [''T''] = Inr [] \<and>
   words_rhyme ''bs!'' ''T'' [(''BS'', [''B'', ''S'']), (''T'', [''T''])] = Inr True"
proof -
  let ?d = "[(''BS'', [''B'', ''S'']), (''T'', [''T''])]"
  have h1: "map_of ?d (transform_string ''bs!'') = Some [''B'', ''S'']" by code_simp
  have h2: "map_of ?d (transform_string ''T'') = Some [''T'']" by code_simp
  have h3: "\<forall>p\<in>set [''B'', ''S'']. is_vowel_phoneme p = Inr False" by code_simp
  have h4: "\<forall>p\<in>set [''T'']. is_vowel_phoneme p = Inr False" by code_simp
  show ?thesis by (rule no_vowel_words_rhyme [OF h1 h2 h3 h4])
qed


text \<open>
  Claim C8. \<^verbatim>\<open>words_rhyme\<close> is symmetric in its two words, for every dictionary; this
  includes the calls that raise, since both orders then raise the same exception.
\<close>

theorem words_rhyme_symmetric:
  "words_rhyme a b d = words_rhyme b a d"
  by (auto simp: words_rhyme_def error_eq split: option.splits sum.splits)






text \<open>
  Claim C9. For a rhyme scheme of length \<open>n\<close>, the keys of the dictionary returned by
  \<^verbatim>\<open>get_rhyme_label_to_lines\<close> are pairwise distinct and are exactly the labels of the
  scheme; every index below \<open>n\<close> lies in the list of exactly one label; every list holds
  indices of the range \<open>0\<close> to \<open>n - 1\<close> only and is strictly increasing.
\<close>

theorem get_rhyme_label_to_lines_partition:
  "distinct (map fst (get_rhyme_label_to_lines rhyme_scheme))
   \<and> set (map fst (get_rhyme_label_to_lines rhyme_scheme)) = set rhyme_scheme
   \<and> (\<forall>i<length rhyme_scheme.
         \<exists>!label. \<exists>ixs. (label, ixs) \<in> set (get_rhyme_label_to_lines rhyme_scheme) \<and>
                         int i \<in> set ixs)
   \<and> (\<forall>(label, ixs)\<in>set (get_rhyme_label_to_lines rhyme_scheme).
         set ixs \<subseteq> {0..<int (length rhyme_scheme)} \<and> sorted_wrt (<) ixs)"
proof (intro conjI allI impI)
  show "distinct (map fst (get_rhyme_label_to_lines rhyme_scheme))"
    by (rule distinct_get_rhyme_label_to_lines)
next
  show "set (map fst (get_rhyme_label_to_lines rhyme_scheme)) = set rhyme_scheme"
  proof (rule set_eqI)
    fix l
    have "l \<in> set (map fst (get_rhyme_label_to_lines rhyme_scheme)) \<longleftrightarrow>
          (\<exists>ixs. (l, ixs) \<in> set (get_rhyme_label_to_lines rhyme_scheme))"
      by force
    then show "l \<in> set (map fst (get_rhyme_label_to_lines rhyme_scheme)) \<longleftrightarrow>
               l \<in> set rhyme_scheme"
      by (simp add: get_rhyme_label_to_lines_entry)
  qed
next
  fix i assume i: "i < length rhyme_scheme"
  show "\<exists>!label. \<exists>ixs. (label, ixs) \<in> set (get_rhyme_label_to_lines rhyme_scheme) \<and>
                       int i \<in> set ixs"
  proof (rule ex1I [of _ "rhyme_scheme ! i"])
    show "\<exists>ixs. (rhyme_scheme ! i, ixs) \<in> set (get_rhyme_label_to_lines rhyme_scheme) \<and>
                int i \<in> set ixs"
      using i by (simp add: get_rhyme_label_to_lines_entry)
  next
    fix label
    assume "\<exists>ixs. (label, ixs) \<in> set (get_rhyme_label_to_lines rhyme_scheme) \<and>
                  int i \<in> set ixs"
    then show "label = rhyme_scheme ! i"
      by (auto simp: get_rhyme_label_to_lines_entry)
  qed
next
  show "\<forall>(label, ixs)\<in>set (get_rhyme_label_to_lines rhyme_scheme).
          set ixs \<subseteq> {0..<int (length rhyme_scheme)} \<and> sorted_wrt (<) ixs"
  proof (clarify, rule conjI)
    fix label ixs
    assume "(label, ixs) \<in> set (get_rhyme_label_to_lines rhyme_scheme)"
    then have ixs: "ixs = map int (filter (\<lambda>i. rhyme_scheme ! i = label)
                                     [0..<length rhyme_scheme])"
      by (simp add: get_rhyme_label_to_lines_entry)
    show "set ixs \<subseteq> {0..<int (length rhyme_scheme)}"
      unfolding ixs by auto
    have "sorted_wrt (<) (filter (\<lambda>i. rhyme_scheme ! i = label) [0..<length rhyme_scheme])"
      by (rule sorted_wrt_filter) (rule sorted_wrt_upt)
    then show "sorted_wrt (<) ixs"
      unfolding ixs by (simp add: sorted_wrt_map)
  qed
qed

theorem get_rhyme_label_to_lines_partition_witness:
  "get_rhyme_label_to_lines [''A'', ''A'', ''B'', ''B'', ''A''] =
     [(''A'', [0, 1, 4]), (''B'', [2, 3])]
   \<and> set (map fst (get_rhyme_label_to_lines [''A'', ''A'', ''B'', ''B'', ''A'']))
       = set [''A'', ''A'', ''B'', ''B'', ''A'']
   \<and> (\<exists>!label. \<exists>ixs. (label, ixs) \<in> set (get_rhyme_label_to_lines
                                               [''A'', ''A'', ''B'', ''B'', ''A'']) \<and>
                       int 3 \<in> set ixs)
   \<and> set [2, 3] \<subseteq> {0..<int (length [''A'', ''A'', ''B'', ''B'', ''A''])}
   \<and> sorted_wrt (<) [2, 3 :: int]"
proof -
  let ?rs = "[''A'', ''A'', ''B'', ''B'', ''A'']"
  have v: "get_rhyme_label_to_lines ?rs = [(''A'', [0, 1, 4]), (''B'', [2, 3])]"
    by (simp add: get_rhyme_label_to_lines_def label_step_def upt_rec)
  note p = get_rhyme_label_to_lines_partition [of ?rs]
  have keys: "set (map fst (get_rhyme_label_to_lines ?rs)) = set ?rs"
    by (rule p [THEN conjunct2, THEN conjunct1])
  have "(3 :: nat) < length ?rs" by simp
  with p have one: "\<exists>!label. \<exists>ixs. (label, ixs) \<in> set (get_rhyme_label_to_lines ?rs) \<and>
                              int 3 \<in> set ixs"
    by blast
  have "(''B'', [2, 3]) \<in> set (get_rhyme_label_to_lines ?rs)" by (simp add: v)
  with p have grp: "set [2, 3] \<subseteq> {0..<int (length ?rs)} \<and> sorted_wrt (<) [2, 3 :: int]"
    by blast
  from v keys one grp [THEN conjunct1] grp [THEN conjunct2] show ?thesis by (intro conjI)
qed

text \<open>
  Claim C2. A rhyme group that fails the check should contribute one inner list to the
  result of \<^verbatim>\<open>check_rhyme_scheme\<close>, as the function's docstring shows for the scheme
  A, B, A. The source tests the group and appends its lines twice in a row, so on the
  docstring's own example the failing group A is reported two times.
\<close>

theorem check_rhyme_scheme_docstring_duplicates:
  "check_rhyme_scheme
     [''The first line leads off,'', ''With a gap before the next.'', ''Then the poem ends.'']
     ([5, 7, 5], [''A'', ''B'', ''A''])
     [(''NEXT'', [''N'', ''EH1'', ''K'', ''S'', ''T'']),
      (''GAP'', [''G'', ''AE1'', ''P'']),
      (''BEFORE'', [''B'', ''IH0'', ''F'', ''AO1'', ''R'']),
      (''LEADS'', [''L'', ''IY1'', ''D'', ''Z'']),
      (''WITH'', [''W'', ''IH1'', ''DH'']),
      (''LINE'', [''L'', ''AY1'', ''N'']),
      (''THEN'', [''DH'', ''EH1'', ''N'']),
      (''THE'', [''DH'', ''AH0'']),
      (''A'', [''AH0'']),
      (''FIRST'', [''F'', ''ER1'', ''S'', ''T'']),
      (''ENDS'', [''EH1'', ''N'', ''D'', ''Z'']),
      (''POEM'', [''P'', ''OW1'', ''AH0'', ''M'']),
      (''OFF'', [''AO1'', ''F''])]
   = Inr [[''The first line leads off,'', ''Then the poem ends.''],
          [''The first line leads off,'', ''Then the poem ends.'']]"
  by code_simp




text \<open>
  Claim C6. Let the poem and the syllable counts of the description have the same length.
  Whenever \<^verbatim>\<open>check_syllable_counts\<close> returns a list, that list consists of the lines at
  exactly those positions, in order, whose required count is not 0 and differs from the
  count the code computes; so a line whose required count is 0 is never included. If every
  required count is 0, the function returns the empty list, whatever the poem and the
  dictionary are.
\<close>

theorem check_syllable_counts_zero_never_flagged:
  assumes "length poem_lines = length (fst description)"
  shows "(\<forall>out. check_syllable_counts poem_lines description word_to_phonemes = Inr out \<longrightarrow>
            out = map ((!) poem_lines)
                    (filter (\<lambda>i. fst description ! i \<noteq> 0 \<and>
                                  get_syllable_count (poem_lines ! i) word_to_phonemes
                                    \<noteq> Inr (fst description ! i))
                       [0..<length poem_lines]))
         \<and> ((\<forall>c\<in>set (fst description). c = 0) \<longrightarrow>
              check_syllable_counts poem_lines description word_to_phonemes = Inr [])"
proof (intro conjI allI impI)
  fix out
  assume out: "check_syllable_counts poem_lines description word_to_phonemes = Inr out"
  have range: "\<forall>i\<in>set [0..<length poem_lines].
                 i < length poem_lines \<and> i < length (fst description)"
    using assms by simp
  from out have "check_syllable_counts_loop poem_lines (fst description) word_to_phonemes
                   [0..<length poem_lines] [] = Inr out"
    by (simp only: check_syllable_counts_def)
  from check_syllable_counts_loop_result [OF range this]
  show "out = map ((!) poem_lines)
                (filter (\<lambda>i. fst description ! i \<noteq> 0 \<and>
                              get_syllable_count (poem_lines ! i) word_to_phonemes
                                \<noteq> Inr (fst description ! i))
                   [0..<length poem_lines])"
    by simp
next
  assume zero: "\<forall>c\<in>set (fst description). c = 0"
  have "\<forall>i\<in>set [0..<length poem_lines].
          i < length poem_lines \<and> i < length (fst description) \<and> fst description ! i = 0"
    using assms zero by simp
  then show "check_syllable_counts poem_lines description word_to_phonemes = Inr []"
    unfolding check_syllable_counts_def by (rule check_syllable_counts_loop_all_zero)
qed

theorem check_syllable_counts_zero_never_flagged_witness:
  "check_syllable_counts [''The first line leads off,''] ([0], [''*''])
     [(''THE'', [''DH'', ''AH0'']), (''OFF'', [''AO1'', ''F''])] = Inr []
   \<and> [''Then the poem ends.''] =
       map ((!) [''The first line leads off,'', ''Then the poem ends.''])
         (filter (\<lambda>i. fst ([0, 4 :: int], [''*'', ''*'']) ! i \<noteq> 0 \<and>
                       get_syllable_count
                         ([''The first line leads off,'', ''Then the poem ends.''] ! i)
                         [(''THE'', [''DH'', ''AH0'']), (''OFF'', [''AO1'', ''F''])]
                       \<noteq> Inr (fst ([0, 4], [''*'', ''*'']) ! i))
            [0..<length [''The first line leads off,'', ''Then the poem ends.'']])"
proof -
  let ?d = "[(''THE'', [''DH'', ''AH0'']), (''OFF'', [''AO1'', ''F''])]"
  have l1: "length [''The first line leads off,''] = length (fst ([0 :: int], [''*'']))"
    by simp
  have z: "\<forall>c\<in>set (fst ([0 :: int], [''*''])). c = 0" by simp
  have a: "check_syllable_counts [''The first line leads off,''] ([0], [''*'']) ?d = Inr []"
    by (rule check_syllable_counts_zero_never_flagged [OF l1, of ?d, THEN conjunct2, rule_format])
       (simp add: z)
  have l2: "length [''The first line leads off,'', ''Then the poem ends.'']
            = length (fst ([0 :: int, 4], [''*'', ''*'']))"
    by simp
  have v: "check_syllable_counts [''The first line leads off,'', ''Then the poem ends.'']
             ([0, 4], [''*'', ''*'']) ?d = Inr [''Then the poem ends.'']"
  proof -
    have "get_syllable_count ''Then the poem ends.'' ?d = Inr 0" by code_simp
    then show ?thesis
      by (simp add: check_syllable_counts_def py_index_def upt_rec)
  qed
  have b: "[''Then the poem ends.''] =
       map ((!) [''The first line leads off,'', ''Then the poem ends.''])
         (filter (\<lambda>i. fst ([0, 4 :: int], [''*'', ''*'']) ! i \<noteq> 0 \<and>
                       get_syllable_count
                         ([''The first line leads off,'', ''Then the poem ends.''] ! i) ?d
                       \<noteq> Inr (fst ([0, 4], [''*'', ''*'']) ! i))
            [0..<length [''The first line leads off,'', ''Then the poem ends.'']])"
    by (rule check_syllable_counts_zero_never_flagged
          [OF l2, of ?d, THEN conjunct1, rule_format, OF v])
  from a b show ?thesis by (rule conjI)
qed

end
